theory Spec2Isabelle
  imports Complex_Main
begin

section \<open>GLAM trial simulation (glambox/simulation.py)\<close>

subsection \<open>Floating-point values\<close>

text \<open>
  The program computes with numpy float64 values.  A value is a finite number or one of
  the three special values; the arithmetic on finite numbers is taken as exact (rounding
  and overflow of finite results are not modelled, nor is the sign of zero), the
  arithmetic on the special values follows IEEE 754 as numpy does: a NaN operand gives
  NaN, \<open>inf - inf\<close>, \<open>0 * inf\<close>, \<open>0 / 0\<close> and \<open>inf / inf\<close> give NaN, a finite
  non-zero number divided by zero gives an infinity.
\<close>

datatype npfloat = Fin real | PInf | NInf | NaN

fun isnan :: "npfloat \<Rightarrow> bool" where
  "isnan NaN = True"
| "isnan _ = False"

fun isfinite :: "npfloat \<Rightarrow> bool" where
  "isfinite (Fin _) = True"
| "isfinite _ = False"

fun fneg :: "npfloat \<Rightarrow> npfloat" where
  "fneg (Fin a) = Fin (- a)"
| "fneg PInf = NInf"
| "fneg NInf = PInf"
| "fneg NaN = NaN"

fun fadd :: "npfloat \<Rightarrow> npfloat \<Rightarrow> npfloat" where
  "fadd (Fin a) (Fin b) = Fin (a + b)"
| "fadd NaN _ = NaN"
| "fadd _ NaN = NaN"
| "fadd PInf NInf = NaN"
| "fadd NInf PInf = NaN"
| "fadd PInf _ = PInf"
| "fadd _ PInf = PInf"
| "fadd NInf _ = NInf"
| "fadd _ NInf = NInf"

definition fsub :: "npfloat \<Rightarrow> npfloat \<Rightarrow> npfloat" where
  "fsub a b = fadd a (fneg b)"

text \<open>An infinity with the sign of a finite factor; NaN when the factor is zero.\<close>

definition signed_inf :: "real \<Rightarrow> npfloat" where
  "signed_inf a = (if a = 0 then NaN else if 0 < a then PInf else NInf)"

fun fmul :: "npfloat \<Rightarrow> npfloat \<Rightarrow> npfloat" where
  "fmul (Fin a) (Fin b) = Fin (a * b)"
| "fmul NaN _ = NaN"
| "fmul _ NaN = NaN"
| "fmul (Fin a) PInf = signed_inf a"
| "fmul (Fin a) NInf = signed_inf (- a)"
| "fmul PInf (Fin b) = signed_inf b"
| "fmul NInf (Fin b) = signed_inf (- b)"
| "fmul PInf PInf = PInf"
| "fmul NInf NInf = PInf"
| "fmul PInf NInf = NInf"
| "fmul NInf PInf = NInf"

fun fdiv :: "npfloat \<Rightarrow> npfloat \<Rightarrow> npfloat" where
  "fdiv (Fin a) (Fin b) = (if b = 0 then signed_inf a else Fin (a / b))"
| "fdiv NaN _ = NaN"
| "fdiv _ NaN = NaN"
| "fdiv (Fin a) PInf = Fin 0"
| "fdiv (Fin a) NInf = Fin 0"
| "fdiv PInf (Fin b) = (if 0 \<le> b then PInf else NInf)"
| "fdiv NInf (Fin b) = (if 0 \<le> b then NInf else PInf)"
| "fdiv PInf _ = NaN"
| "fdiv NInf _ = NaN"

fun fexp :: "npfloat \<Rightarrow> npfloat" where
  "fexp (Fin a) = Fin (exp a)"
| "fexp PInf = PInf"
| "fexp NInf = Fin 0"
| "fexp NaN = NaN"

text \<open>The comparison \<open>a < b\<close>: false as soon as one side is NaN.\<close>

fun flt :: "npfloat \<Rightarrow> npfloat \<Rightarrow> bool" where
  "flt (Fin a) (Fin b) = (a < b)"
| "flt NaN _ = False"
| "flt _ NaN = False"
| "flt NInf NInf = False"
| "flt NInf _ = True"
| "flt _ NInf = False"
| "flt PInf _ = False"
| "flt _ PInf = True"

text \<open>The comparison \<open>a == b\<close>: NaN equals nothing, itself included.\<close>

definition feq :: "npfloat \<Rightarrow> npfloat \<Rightarrow> bool" where
  "feq a b = (\<not> isnan a \<and> a = b)"

subsection \<open>Errors and numpy reductions\<close>

text \<open>The exceptions of Python that the modelled code can raise.\<close>

datatype error = ValueError | KeyError | TypeError | IndexError

text \<open>\<open>np.maximum\<close> and \<open>np.minimum\<close> of two values: NaN propagates.\<close>

definition fmax :: "npfloat \<Rightarrow> npfloat \<Rightarrow> npfloat" where
  "fmax a b = (if isnan a \<or> isnan b then NaN else if flt a b then b else a)"

definition fmin :: "npfloat \<Rightarrow> npfloat \<Rightarrow> npfloat" where
  "fmin a b = (if isnan a \<or> isnan b then NaN else if flt b a then b else a)"

text \<open>
  \<open>np.max\<close> and \<open>np.min\<close> of a one-dimensional array; on an empty array numpy raises
  ValueError (zero-size array to reduction operation).
\<close>

fun np_max :: "npfloat list \<Rightarrow> error + npfloat" where
  "np_max [] = Inl ValueError"
| "np_max (x # xs) = Inr (foldl fmax x xs)"

fun np_min :: "npfloat list \<Rightarrow> error + npfloat" where
  "np_min [] = Inl ValueError"
| "np_min (x # xs) = Inr (foldl fmin x xs)"

text \<open>
  An elementwise binary operation on two one-dimensional arrays, with numpy's
  broadcasting: equal lengths, or one of the two of length one; any other pair of shapes
  raises ValueError.
\<close>

definition np_binop ::
  "(npfloat \<Rightarrow> npfloat \<Rightarrow> npfloat) \<Rightarrow> npfloat list \<Rightarrow> npfloat list \<Rightarrow> error + npfloat list" where
  "np_binop f xs ys =
     (if length xs = length ys then Inr (map2 f xs ys)
      else if length xs = 1 then Inr (map (f (hd xs)) ys)
      else if length ys = 1 then Inr (map (\<lambda>x. f x (hd ys)) xs)
      else Inl ValueError)"

subsection \<open>The evidence rates: \<open>make_R\<close>\<close>

text \<open>
  \<^verbatim>\<open>A = gaze * values + (1. - gaze) * gamma * values\<close>
\<close>

definition make_A :: "npfloat \<Rightarrow> npfloat list \<Rightarrow> npfloat list \<Rightarrow> error + npfloat list" where
  "make_A gamma values gaze =
     (case np_binop fmul gaze values of
        Inl e \<Rightarrow> Inl e
      | Inr gv \<Rightarrow>
          (case np_binop fmul (map (\<lambda>g. fmul (fsub (Fin 1) g) gamma) gaze) values of
             Inl e \<Rightarrow> Inl e
           | Inr dv \<Rightarrow> np_binop fadd gv dv))"

text \<open>
  The loop \<^verbatim>\<open>for i in range(n_items)\<close> of \<open>make_R\<close>, over the indices still to visit:
  \<^verbatim>\<open>others = np.arange(n_items)[np.arange(n_items) != i]\<close>,
  \<^verbatim>\<open>R_star[i] = A[i] - np.max(A[others])\<close>.
\<close>

definition others :: "nat \<Rightarrow> nat \<Rightarrow> nat list" where
  "others n_items i = filter (\<lambda>j. j \<noteq> i) [0..<n_items]"

fun R_star_loop :: "npfloat list \<Rightarrow> nat \<Rightarrow> nat list \<Rightarrow> error + npfloat list" where
  "R_star_loop A n_items [] = Inr []"
| "R_star_loop A n_items (i # is) =
     (case np_max (map (\<lambda>j. A ! j) (others n_items i)) of
        Inl e \<Rightarrow> Inl e
      | Inr m \<Rightarrow>
          (case R_star_loop A n_items is of
             Inl e \<Rightarrow> Inl e
           | Inr rs \<Rightarrow> Inr (fsub (A ! i) m # rs)))"

text \<open>\<^verbatim>\<open>R = v / (1 + np.exp(-tau * R_star))\<close>, for one entry of \<open>R_star\<close>.\<close>

definition logistic :: "npfloat \<Rightarrow> npfloat \<Rightarrow> npfloat \<Rightarrow> npfloat" where
  "logistic v tau r = fdiv v (fadd (Fin 1) (fexp (fmul (fneg tau) r)))"

definition make_R ::
  "npfloat \<Rightarrow> npfloat \<Rightarrow> npfloat \<Rightarrow> npfloat list \<Rightarrow> npfloat list \<Rightarrow> error + npfloat list" where
  "make_R v tau gamma values gaze =
     (let n_items = length values in
      case make_A gamma values gaze of
        Inl e \<Rightarrow> Inl e
      | Inr A \<Rightarrow>
          (case R_star_loop A n_items [0..<n_items] of
             Inl e \<Rightarrow> Inl e
           | Inr R_star \<Rightarrow> Inr (map (logistic v tau) R_star)))"

subsection \<open>The random source\<close>

text \<open>
  The samplers of numpy and scipy are outside the program.  They are taken as a parameter:
  a random source answers the \<open>k\<close>-th draw of a run, given the arguments of the call, and
  the number \<open>k\<close> of draws made so far is the state that the simulation threads through.
  \<open>random_uniform g k low high\<close> is \<^verbatim>\<open>np.random.uniform(low, high)\<close>,
  \<open>random_choice g k n\<close> stands for \<^verbatim>\<open>np.random.choice(n)\<close> and
  \<open>invgauss_rvs g k mu scale\<close> is \<^verbatim>\<open>invgauss.rvs(mu=mu, scale=scale)\<close>, which may raise
  (scipy rejects arguments outside the domain of the distribution) and may return any
  float value.
\<close>

record rng =
  random_uniform :: "nat \<Rightarrow> npfloat \<Rightarrow> npfloat \<Rightarrow> npfloat"
  random_choice :: "nat \<Rightarrow> nat \<Rightarrow> nat"
  invgauss_rvs :: "nat \<Rightarrow> npfloat \<Rightarrow> npfloat \<Rightarrow> error + npfloat"

text \<open>
  \<^verbatim>\<open>np.random.choice(n)\<close> raises ValueError for \<open>n = 0\<close> and returns an index below \<open>n\<close>
  otherwise: the answer of the random source is reduced into that range.
\<close>

definition np_random_choice :: "rng \<Rightarrow> nat \<Rightarrow> nat \<Rightarrow> error + nat" where
  "np_random_choice g k n = (if n = 0 then Inl ValueError else Inr (random_choice g k n mod n))"

subsection \<open>One trial: \<open>simulate_trial\<close>\<close>

text \<open>The parameter vector, unpacked by \<^verbatim>\<open>v, gamma, s, tau, t0 = parameters\<close>.\<close>

record parameters =
  param_v :: npfloat
  param_gamma :: npfloat
  param_s :: npfloat
  param_tau :: npfloat
  param_t0 :: npfloat

text \<open>A choice is an item index, or \<^verbatim>\<open>np.nan\<close> in a round of the race that is rejected.\<close>

datatype choice = Item nat | NoChoice

text \<open>
  \<^verbatim>\<open>np.argmin\<close> of a one-dimensional array: the first index of the minimum, the first
  index of a NaN when there is one; ValueError on an empty array.  \<open>argmin_from bi b i xs\<close>
  scans \<open>xs\<close>, whose head has index \<open>i\<close>, with the best index \<open>bi\<close> and value \<open>b\<close> so far.
\<close>

fun argmin_from :: "nat \<Rightarrow> npfloat \<Rightarrow> nat \<Rightarrow> npfloat list \<Rightarrow> nat" where
  "argmin_from bi b i [] = bi"
| "argmin_from bi b i (x # xs) =
     (if \<not> isnan b \<and> (isnan x \<or> flt x b) then argmin_from i x (Suc i) xs
      else argmin_from bi b (Suc i) xs)"

fun np_argmin :: "npfloat list \<Rightarrow> error + nat" where
  "np_argmin [] = Inl ValueError"
| "np_argmin (x # xs) = Inr (argmin_from 0 x 1 xs)"

text \<open>
  The loop \<^verbatim>\<open>for i in range(n_items)\<close> of the race, over the indices still to visit:
  \<^verbatim>\<open>mu = boundary / R[i]\<close>, \<^verbatim>\<open>lam = (boundary / s)**2\<close>,
  \<^verbatim>\<open>FPTs[i] = invgauss.rvs(mu=mu / lam, scale=lam)\<close>.
  The scalars are numpy floats, as \<open>predict\<close> passes them, so that a division by zero
  gives an infinity or NaN and does not raise.
\<close>

fun sample_FPTs ::
  "rng \<Rightarrow> npfloat \<Rightarrow> npfloat \<Rightarrow> npfloat list \<Rightarrow> nat list \<Rightarrow> nat \<Rightarrow> error + (npfloat list \<times> nat)" where
  "sample_FPTs g boundary s R [] k = Inr ([], k)"
| "sample_FPTs g boundary s R (i # is) k =
     (if length R \<le> i then Inl IndexError
      else
        (let mu = fdiv boundary (R ! i);
             lam = fmul (fdiv boundary s) (fdiv boundary s)
         in case invgauss_rvs g k (fdiv mu lam) lam of
              Inl e \<Rightarrow> Inl e
            | Inr x \<Rightarrow>
                (case sample_FPTs g boundary s R is (Suc k) of
                   Inl e \<Rightarrow> Inl e
                 | Inr (xs, k') \<Rightarrow> Inr (x # xs, k'))))"

text \<open>
  One pass through the body of \<^verbatim>\<open>while np.isnan(rt)\<close>: the rates, the first-passage
  times, their minimum, and the test \<^verbatim>\<open>if rt < 0 or not np.isfinite(rt)\<close>.  The result
  is the choice, the response time and the number of draws made.
\<close>

definition race_round ::
  "rng \<Rightarrow> parameters \<Rightarrow> npfloat list \<Rightarrow> npfloat list \<Rightarrow> npfloat \<Rightarrow> nat
     \<Rightarrow> error + (choice \<times> npfloat \<times> nat)" where
  "race_round g P values gaze boundary k =
     (let n_items = length values in
      case make_R (param_v P) (param_tau P) (param_gamma P) values gaze of
        Inl e \<Rightarrow> Inl e
      | Inr R \<Rightarrow>
          (case sample_FPTs g boundary (param_s P) R [0..<n_items] k of
             Inl e \<Rightarrow> Inl e
           | Inr (FPTs, k') \<Rightarrow>
               (case np_min FPTs of
                  Inl e \<Rightarrow> Inl e
                | Inr rt \<Rightarrow>
                    if flt rt (Fin 0) \<or> \<not> isfinite rt then Inr (NoChoice, NaN, k')
                    else
                      (case np_argmin FPTs of
                         Inl e \<Rightarrow> Inl e
                       | Inr c \<Rightarrow> Inr (Item c, fadd rt (param_t0 P), k')))))"

text \<open>
  The loop \<^verbatim>\<open>rt = np.nan; while np.isnan(rt): ...\<close>.  It has no bound on the number of
  rounds, so it is a partial function: \<open>None\<close> is a run that never leaves the loop,
  \<open>Some (Inl e)\<close> a run that raises \<open>e\<close>, \<open>Some (Inr x)\<close> a run that returns \<open>x\<close>.
\<close>

partial_function (option) race_loop ::
  "rng \<Rightarrow> parameters \<Rightarrow> npfloat list \<Rightarrow> npfloat list \<Rightarrow> npfloat \<Rightarrow> nat
     \<Rightarrow> (error + ((choice \<times> npfloat) \<times> nat)) option" where
  "race_loop g P values gaze boundary k =
     (case race_round g P values gaze boundary k of
        Inl e \<Rightarrow> Some (Inl e)
      | Inr (c, rt, k') \<Rightarrow>
          if isnan rt then race_loop g P values gaze boundary k'
          else Some (Inr ((c, rt), k')))"

text \<open>
  \<open>simulate_trial\<close>: the error branch when \<^verbatim>\<open>np.random.uniform(0, 1) < error_weight\<close>,
  the race otherwise.  The result carries the number of draws made.
\<close>

definition simulate_trial ::
  "rng \<Rightarrow> parameters \<Rightarrow> npfloat list \<Rightarrow> npfloat list \<Rightarrow> npfloat \<Rightarrow> npfloat
     \<Rightarrow> npfloat \<times> npfloat \<Rightarrow> nat \<Rightarrow> (error + ((choice \<times> npfloat) \<times> nat)) option" where
  "simulate_trial g P values gaze boundary error_weight error_range k =
     (let n_items = length values in
      if flt (random_uniform g k (Fin 0) (Fin 1)) error_weight then
        (let rt = random_uniform g (k + 1) (fst error_range) (snd error_range) in
         case np_random_choice g (k + 2) n_items of
           Inl e \<Rightarrow> Some (Inl e)
         | Inr c \<Rightarrow> Some (Inr ((Item c, rt), k + 3)))
      else race_loop g P values gaze boundary (k + 1))"

subsection \<open>The evidence rates as the specification writes them\<close>

text \<open>
  The three formulas of the specification, over real numbers and by item index: the
  attention-weighted value \<open>A_i\<close>, the relative evidence \<open>R*_i\<close> against the best of the
  other items, and the logistic transform \<open>R_i\<close>.
\<close>

definition spec_A :: "real \<Rightarrow> real list \<Rightarrow> real list \<Rightarrow> nat \<Rightarrow> real" where
  "spec_A gamma values gaze i = gaze ! i * values ! i + (1 - gaze ! i) * gamma * values ! i"

definition spec_R_star :: "real \<Rightarrow> real list \<Rightarrow> real list \<Rightarrow> nat \<Rightarrow> real" where
  "spec_R_star gamma values gaze i =
     spec_A gamma values gaze i - Max (spec_A gamma values gaze ` ({..<length values} - {i}))"

definition spec_R :: "real \<Rightarrow> real \<Rightarrow> real \<Rightarrow> real list \<Rightarrow> real list \<Rightarrow> nat \<Rightarrow> real" where
  "spec_R v tau gamma values gaze i = v / (1 + exp (- tau * spec_R_star gamma values gaze i))"

subsection \<open>Example inputs\<close>

text \<open>
  Concrete inputs for the instances below: the parameter vector and the two-item trial of
  the specification's scenario (\<open>values = [5, 3]\<close>, \<open>gaze = [0.8, 0.2]\<close>), and random
  sources with fixed answers.  With \<open>draws_3_2\<close> the first round of a race that starts after
  one draw gets the first-passage times 3 and 2.
\<close>

definition example_parameters :: parameters where
  "example_parameters =
     \<lparr>param_v = Fin 1, param_gamma = Fin (1/5), param_s = Fin (1/5), param_tau = Fin (1/2),
      param_t0 = Fin 300\<rparr>"

definition draws_3_2 :: rng where
  "draws_3_2 =
     \<lparr>random_uniform = (\<lambda>k low high. Fin (1/2)),
      random_choice = (\<lambda>k n. 0),
      invgauss_rvs = (\<lambda>k mu scale. Inr (Fin (if k = 1 then 3 else 2)))\<rparr>"

definition draws_stalled :: rng where
  "draws_stalled =
     \<lparr>random_uniform = (\<lambda>k low high. Fin (1/2)),
      random_choice = (\<lambda>k n. 0),
      invgauss_rvs = (\<lambda>k mu scale. Inr NaN)\<rparr>"

definition draws_negative :: rng where
  "draws_negative =
     \<lparr>random_uniform = (\<lambda>k low high. Fin (1/2)),
      random_choice = (\<lambda>k n. 0),
      invgauss_rvs = (\<lambda>k mu scale. Inr (Fin (- 1)))\<rparr>"

definition draws_low :: rng where
  "draws_low =
     \<lparr>random_uniform = (\<lambda>k low high. low),
      random_choice = (\<lambda>k n. 0),
      invgauss_rvs = (\<lambda>k mu scale. Inr (Fin 2))\<rparr>"

section \<open>Properties of \<open>make_R\<close>\<close>

lemma make_A_Fin:
  assumes "length vs = length gs"
  shows "make_A (Fin gamma) (map Fin vs) (map Fin gs)
       = Inr (map (\<lambda>i. Fin (spec_A gamma vs gs i)) [0..<length vs])"
proof -
  have "make_A (Fin gamma) (map Fin vs) (map Fin gs)
      = Inr (map2 fadd (map2 fmul (map Fin gs) (map Fin vs))
              (map2 fmul (map (\<lambda>g. fmul (fsub (Fin 1) g) (Fin gamma)) (map Fin gs)) (map Fin vs)))"
    using assms by (simp add: make_A_def np_binop_def)
  also have "map2 fadd (map2 fmul (map Fin gs) (map Fin vs))
              (map2 fmul (map (\<lambda>g. fmul (fsub (Fin 1) g) (Fin gamma)) (map Fin gs)) (map Fin vs))
       = map (\<lambda>i. Fin (spec_A gamma vs gs i)) [0..<length vs]"
    using assms by (intro nth_equalityI) (simp_all add: spec_A_def fsub_def)
  finally show ?thesis .
qed

lemma foldl_fmax_fold: "foldl fmax (Fin x) (map Fin xs) = Fin (fold max xs x)"
proof (induction xs arbitrary: x)
  case Nil
  show ?case by simp
next
  case (Cons y ys)
  have "fmax (Fin x) (Fin y) = Fin (max y x)"
    by (simp add: fmax_def max_def)
  then show ?case
    using Cons.IH[of "max y x"] by simp
qed

lemma foldl_fmax_Fin: "foldl fmax (Fin x) (map Fin xs) = Fin (Max (set (x # xs)))"
  by (simp only: foldl_fmax_fold Max.set_eq_fold)

lemma np_max_Fin:
  assumes "xs \<noteq> []"
  shows "np_max (map Fin xs) = Inr (Fin (Max (set xs)))"
proof (cases xs)
  case Nil
  with assms show ?thesis by simp
next
  case (Cons y ys)
  have "np_max (map Fin (y # ys)) = Inr (foldl fmax (Fin y) (map Fin ys))"
    by simp
  then show ?thesis
    unfolding Cons by (simp only: foldl_fmax_Fin)
qed

lemma set_others: "set (others n i) = {j. j < n \<and> j \<noteq> i}"
  by (auto simp: others_def)

lemma others_nonempty:
  assumes "2 \<le> n"
  shows "others n i \<noteq> []"
proof -
  have "(if i = 0 then 1 else 0) \<in> set (others n i)"
    using assms by (auto simp: set_others)
  then show ?thesis by auto
qed

lemma logistic_Fin: "logistic (Fin v) (Fin tau) (Fin r) = Fin (v / (1 + exp (- tau * r)))"
proof -
  have "1 + exp (- (tau * r)) \<noteq> 0"
    using exp_gt_zero[of "- (tau * r)"] by linarith
  then show ?thesis by (simp add: logistic_def)
qed

lemma R_star_loop_Fin:
  assumes "2 \<le> n" "set is \<subseteq> {..<n}"
  shows "R_star_loop (map (\<lambda>i. Fin (f i)) [0..<n]) n is
       = Inr (map (\<lambda>i. Fin (f i - Max (f ` ({..<n} - {i})))) is)"
  using assms(2)
proof (induction "is")
  case Nil
  then show ?case by simp
next
  case (Cons i "is")
  let ?A = "map (\<lambda>i. Fin (f i)) [0..<n]"
  have e1: "map (\<lambda>j. ?A ! j) (others n i) = map Fin (map f (others n i))"
    by (simp add: set_others)
  have e2: "set (map f (others n i)) = f ` ({..<n} - {i})"
    by (auto simp: set_others)
  have ne: "map f (others n i) \<noteq> []"
    using others_nonempty[OF assms(1), of i] by simp
  have "np_max (map (\<lambda>j. ?A ! j) (others n i)) = Inr (Fin (Max (f ` ({..<n} - {i}))))"
    unfolding e1 using np_max_Fin[OF ne] unfolding e2 .
  moreover have "i < n"
    using Cons.prems by simp
  ultimately show ?case
    using Cons by (simp add: fsub_def)
qed

lemma upt3: "[0..<3] = [0, 1, 2]"
  by (simp add: upt_rec)

text \<open>
  Claim C1.  For value and gaze vectors of the same length \<open>n \<ge> 2\<close> and parameters
  \<open>v\<close>, \<open>gamma\<close>, \<open>tau\<close> (finite numbers), \<open>make_R\<close> returns the vector whose entry \<open>i\<close> is
  \<open>R_i = v / (1 + exp (- tau * R*_i))\<close>, with \<open>R*_i = A_i - max {A_j | j \<noteq> i}\<close> the
  difference to the best of the other items and
  \<open>A_i = gaze_i * values_i + (1 - gaze_i) * gamma * values_i\<close>.
\<close>

theorem make_R_formula:
  assumes "length vs = length gs" "2 \<le> length vs"
  shows "make_R (Fin v) (Fin tau) (Fin gamma) (map Fin vs) (map Fin gs)
       = Inr (map (\<lambda>i. Fin (spec_R v tau gamma vs gs i)) [0..<length vs])"
proof -
  have A: "make_A (Fin gamma) (map Fin vs) (map Fin gs)
         = Inr (map (\<lambda>i. Fin (spec_A gamma vs gs i)) [0..<length vs])"
    by (rule make_A_Fin[OF assms(1)])
  have R: "R_star_loop (map (\<lambda>i. Fin (spec_A gamma vs gs i)) [0..<length vs]) (length vs)
             [0..<length vs]
         = Inr (map (\<lambda>i. Fin (spec_R_star gamma vs gs i)) [0..<length vs])"
  proof -
    have "set [0..<length vs] \<subseteq> {..<length vs}" by auto
    from R_star_loop_Fin[OF assms(2) this, of "spec_A gamma vs gs"]
    show ?thesis by (simp add: spec_R_star_def)
  qed
  show ?thesis
    using A R by (simp add: make_R_def comp_def logistic_Fin spec_R_def)
qed

text \<open>
  Three items with attention-weighted values 3, 1 and 2: the first is compared with 2,
  the best of the others, and the other two with 3.
\<close>

theorem make_R_formula_witness:
  "length [3, 1, 2 :: real] = length [1/2, 1/4, 1/4 :: real] \<and> 2 \<le> length [3, 1, 2 :: real] \<and>
   make_R (Fin 1) (Fin 1) (Fin 1) (map Fin [3, 1, 2]) (map Fin [1/2, 1/4, 1/4])
     = Inr [Fin (1 / (1 + exp (- 1))), Fin (1 / (1 + exp 2)), Fin (1 / (1 + exp 1))]"
  using make_R_formula[of "[3, 1, 2]" "[1/2, 1/4, 1/4]" 1 1 1]
  by (simp add: spec_R_def spec_R_star_def spec_A_def lessThan_Suc insert_Diff_if upt3)

text \<open>
  Claim C9.  For two items with the same value \<open>x\<close> and the same gaze \<open>g\<close>, both entries
  of \<open>A\<close> are equal, both relative evidences \<open>R*_i\<close> are 0 and both rates are \<open>v / 2\<close>,
  for all (finite) \<open>v\<close>, \<open>gamma\<close> and \<open>tau\<close>.
\<close>

theorem make_R_equal_items:
  "make_A (Fin gamma) [Fin x, Fin x] [Fin g, Fin g]
     = Inr [Fin (g * x + (1 - g) * gamma * x), Fin (g * x + (1 - g) * gamma * x)] \<and>
   R_star_loop [Fin (g * x + (1 - g) * gamma * x), Fin (g * x + (1 - g) * gamma * x)] 2 [0..<2]
     = Inr [Fin 0, Fin 0] \<and>
   make_R (Fin v) (Fin tau) (Fin gamma) [Fin x, Fin x] [Fin g, Fin g]
     = Inr [Fin (v / 2), Fin (v / 2)]"
  by (simp add: make_R_def make_A_def np_binop_def others_def upt_rec fsub_def logistic_def)

section \<open>Properties of \<open>simulate_trial\<close>\<close>

lemma flt_irrefl: "\<not> flt a a"
  by (cases a) simp_all

lemma flt_trans: "flt a b \<Longrightarrow> flt b c \<Longrightarrow> flt a c"
  by (cases a; cases b; cases c) simp_all

lemma flt_not_nan: "flt a b \<Longrightarrow> \<not> isnan a \<and> \<not> isnan b"
  by (cases a; cases b) simp_all

lemma flt_le_trans: "flt a b \<Longrightarrow> \<not> flt c b \<Longrightarrow> \<not> isnan c \<Longrightarrow> flt a c"
  by (cases a; cases b; cases c) simp_all

lemma not_flt_antisym: "\<not> isnan a \<Longrightarrow> \<not> isnan b \<Longrightarrow> \<not> flt a b \<Longrightarrow> \<not> flt b a \<Longrightarrow> a = b"
  by (cases a; cases b) simp_all

lemma foldl_fmin_NaN: "foldl fmin NaN xs = NaN"
  by (induction xs) (simp_all add: fmin_def)

lemma foldl_fmin_min:
  assumes "\<not> isnan (foldl fmin b xs)"
  shows "foldl fmin b xs \<in> set (b # xs) \<and>
         (\<forall>x\<in>set (b # xs). \<not> isnan x \<and> \<not> flt x (foldl fmin b xs))"
  using assms
proof (induction xs arbitrary: b)
  case Nil
  then show ?case by (simp add: flt_irrefl)
next
  case (Cons y ys)
  have nn: "\<not> isnan b \<and> \<not> isnan y"
  proof (rule ccontr)
    assume "\<not> (\<not> isnan b \<and> \<not> isnan y)"
    then have "fmin b y = NaN" by (auto simp: fmin_def)
    with Cons.prems show False by (simp add: foldl_fmin_NaN)
  qed
  let ?m = "fmin b y"
  let ?r = "foldl fmin ?m ys"
  have r: "?r = foldl fmin b (y # ys)" by simp
  have IH: "?r \<in> set (?m # ys) \<and> (\<forall>x\<in>set (?m # ys). \<not> isnan x \<and> \<not> flt x ?r)"
    using Cons.IH[of ?m] Cons.prems by simp
  have m: "?m = (if flt y b then y else b)" using nn by (simp add: fmin_def)
  have mr: "\<not> flt ?m ?r" using IH by simp
  have nr: "\<not> isnan ?r" using Cons.prems by simp
  have "\<not> flt b ?r"
  proof
    assume "flt b ?r"
    show False
    proof (cases "flt y b")
      case True
      then have "flt y ?r" using \<open>flt b ?r\<close> flt_trans by blast
      with mr m True show False by simp
    next
      case False
      with mr m \<open>flt b ?r\<close> show False by simp
    qed
  qed
  moreover have "\<not> flt y ?r"
  proof
    assume "flt y ?r"
    show False
    proof (cases "flt y b")
      case True
      with mr m \<open>flt y ?r\<close> show False by simp
    next
      case False
      have "flt y b" using flt_le_trans[OF \<open>flt y ?r\<close> _ , of b] mr m False nn by simp
      with False show False by simp
    qed
  qed
  moreover have "?r \<in> set (b # y # ys)" using IH m by (auto split: if_splits)
  ultimately show ?case using IH nn unfolding r[symmetric] by auto
qed

lemma argmin_from_spec:
  assumes "ys = pre @ xs" "length pre = i" "bi < i" "ys ! bi = b" "\<forall>y\<in>set ys. \<not> isnan y"
    "\<forall>j<i. \<not> flt (ys ! j) b" "\<forall>j<bi. flt b (ys ! j)"
  shows "argmin_from bi b i xs < length ys \<and>
         (\<forall>j<length ys. \<not> flt (ys ! j) (ys ! argmin_from bi b i xs)) \<and>
         (\<forall>j<argmin_from bi b i xs. flt (ys ! argmin_from bi b i xs) (ys ! j))"
  using assms
proof (induction xs arbitrary: pre bi b i)
  case Nil
  then show ?case by simp
next
  case (Cons x xs)
  have ys: "ys = (pre @ [x]) @ xs" using Cons.prems(1) by simp
  have len: "length (pre @ [x]) = Suc i" using Cons.prems(2) by simp
  have yi: "ys ! i = x" using Cons.prems(1,2) by (simp add: nth_append)
  have nnx: "\<not> isnan x" using Cons.prems(1,5) by simp
  have "bi < length ys" using Cons.prems(1,2,3) by simp
  then have "ys ! bi \<in> set ys" by simp
  then have nnb: "\<not> isnan b" using Cons.prems(4,5) by auto
  have nn: "\<And>j. j < i \<Longrightarrow> \<not> isnan (ys ! j)"
    using Cons.prems(1,2,5) by (simp add: nth_append)
  show ?case
  proof (cases "flt x b")
    case True
    have a: "\<forall>j<Suc i. \<not> flt (ys ! j) x"
    proof (intro allI impI)
      fix j assume "j < Suc i"
      show "\<not> flt (ys ! j) x"
      proof (cases "j = i")
        case True
        then show ?thesis using yi flt_irrefl by simp
      next
        case False
        then have "j < i" using \<open>j < Suc i\<close> by simp
        then have "\<not> flt (ys ! j) b" using Cons.prems(6) by simp
        then show ?thesis using True flt_trans by blast
      qed
    qed
    have b: "\<forall>j<i. flt x (ys ! j)"
      using Cons.prems(6) True nn flt_le_trans by blast
    have "argmin_from bi b i (x # xs) = argmin_from i x (Suc i) xs"
      using True nnb by simp
    moreover have "i < Suc i" by simp
    ultimately show ?thesis
      using Cons.IH[OF ys len \<open>i < Suc i\<close> yi Cons.prems(5) a b] by simp
  next
    case False
    have a: "\<forall>j<Suc i. \<not> flt (ys ! j) b"
      using Cons.prems(6) False yi less_Suc_eq by auto
    have "argmin_from bi b i (x # xs) = argmin_from bi b (Suc i) xs"
      using False nnx by simp
    moreover have "bi < Suc i" using Cons.prems(3) by simp
    ultimately show ?thesis
      using Cons.IH[OF ys len \<open>bi < Suc i\<close> Cons.prems(4) Cons.prems(5) a Cons.prems(7)] by simp
  qed
qed

lemma np_argmin_first_min:
  assumes "np_min xs = Inr m" "\<not> isnan m" "np_argmin xs = Inr c"
  shows "c < length xs \<and> xs ! c = m \<and> (\<forall>j<c. xs ! j \<noteq> m)"
proof (cases xs)
  case Nil
  with assms show ?thesis by simp
next
  case (Cons x xs')
  have m: "m = foldl fmin x xs'" using assms(1) Cons by simp
  have c: "c = argmin_from 0 x (Suc 0) xs'" using assms(3) Cons by simp
  from foldl_fmin_min[of x xs'] assms(2) m
  have mem: "m \<in> set xs" and all: "\<forall>y\<in>set xs. \<not> isnan y \<and> \<not> flt y m"
    using Cons by simp_all
  have "argmin_from 0 x (Suc 0) xs' < length xs \<and>
         (\<forall>j<length xs. \<not> flt (xs ! j) (xs ! argmin_from 0 x (Suc 0) xs')) \<and>
         (\<forall>j<argmin_from 0 x (Suc 0) xs'. flt (xs ! argmin_from 0 x (Suc 0) xs') (xs ! j))"
    using all Cons by (intro argmin_from_spec[where pre = "[x]"]) (simp_all add: flt_irrefl)
  then have c1: "c < length xs" and c2: "\<forall>j<length xs. \<not> flt (xs ! j) (xs ! c)"
    and c3: "\<forall>j<c. flt (xs ! c) (xs ! j)"
    using c by simp_all
  obtain jm where jm: "jm < length xs" "xs ! jm = m"
    using mem by (auto simp: in_set_conv_nth)
  have "\<not> flt m (xs ! c)" using c2 jm by auto
  moreover have "\<not> flt (xs ! c) m" using all c1 by simp
  moreover have "\<not> isnan (xs ! c)" using all c1 by simp
  ultimately have eq: "xs ! c = m" using assms(2) not_flt_antisym by blast
  have "\<forall>j<c. xs ! j \<noteq> m"
  proof (intro allI impI)
    fix j assume "j < c"
    then have "flt m (xs ! j)" using c3 eq by auto
    then show "xs ! j \<noteq> m" using flt_irrefl[of m] by auto
  qed
  with c1 eq show ?thesis by simp
qed

lemma sample_FPTs_draws:
  assumes "sample_FPTs g b s R is k = Inr (xs, k')"
  shows "k' = k + length is \<and> length xs = length is \<and>
         (\<forall>j<length is. is ! j < length R \<and>
            invgauss_rvs g (k + j) (fdiv (fdiv b (R ! (is ! j))) (fmul (fdiv b s) (fdiv b s)))
              (fmul (fdiv b s) (fdiv b s)) = Inr (xs ! j))"
  using assms
proof (induction "is" arbitrary: k xs)
  case Nil
  then show ?case by simp
next
  case (Cons i "is")
  from Cons.prems obtain x xs0 where
    i: "i < length R"
    and x: "invgauss_rvs g k (fdiv (fdiv b (R ! i)) (fmul (fdiv b s) (fdiv b s)))
              (fmul (fdiv b s) (fdiv b s)) = Inr x"
    and rest: "sample_FPTs g b s R is (Suc k) = Inr (xs0, k')"
    and xs: "xs = x # xs0"
    by (auto simp: Let_def split: if_splits sum.splits prod.splits)
  from Cons.IH[OF rest]
  have IH: "k' = Suc k + length is" "length xs0 = length is"
    "\<forall>j<length is. is ! j < length R \<and>
            invgauss_rvs g (Suc k + j) (fdiv (fdiv b (R ! (is ! j))) (fmul (fdiv b s) (fdiv b s)))
              (fmul (fdiv b s) (fdiv b s)) = Inr (xs0 ! j)"
    by simp_all
  have "\<forall>j<length (i # is). (i # is) ! j < length R \<and>
            invgauss_rvs g (k + j) (fdiv (fdiv b (R ! ((i # is) ! j))) (fmul (fdiv b s) (fdiv b s)))
              (fmul (fdiv b s) (fdiv b s)) = Inr (xs ! j)"
  proof (intro allI impI)
    fix j assume j: "j < length (i # is)"
    show "(i # is) ! j < length R \<and>
            invgauss_rvs g (k + j) (fdiv (fdiv b (R ! ((i # is) ! j))) (fmul (fdiv b s) (fdiv b s)))
              (fmul (fdiv b s) (fdiv b s)) = Inr (xs ! j)"
    proof (cases j)
      case 0
      then show ?thesis using i x xs by simp
    next
      case (Suc j')
      then have "j' < length is" using j by simp
      then show ?thesis using IH(3) Suc xs by simp
    qed
  qed
  then show ?case using IH(1,2) xs by simp
qed

lemma race_round_accepted:
  assumes "race_round g P values gaze boundary k = Inr (c, rt, k')" "\<not> isnan rt"
  shows "\<exists>R FPTs m i.
           make_R (param_v P) (param_tau P) (param_gamma P) values gaze = Inr R \<and>
           sample_FPTs g boundary (param_s P) R [0..<length values] k = Inr (FPTs, k') \<and>
           np_min FPTs = Inr (Fin m) \<and> 0 \<le> m \<and>
           np_argmin FPTs = Inr i \<and> c = Item i \<and> rt = fadd (Fin m) (param_t0 P)"
proof -
  from assms obtain R FPTs r i where
    R: "make_R (param_v P) (param_tau P) (param_gamma P) values gaze = Inr R"
    and F: "sample_FPTs g boundary (param_s P) R [0..<length values] k = Inr (FPTs, k')"
    and r: "np_min FPTs = Inr r" "\<not> flt r (Fin 0)" "isfinite r"
    and i: "np_argmin FPTs = Inr i" "c = Item i" "rt = fadd r (param_t0 P)"
    by (auto simp: race_round_def Let_def split: sum.splits prod.splits if_splits)
  from r(2,3) obtain m where "r = Fin m" "0 \<le> m"
    by (cases r) auto
  with R F r i show ?thesis by blast
qed

lemma race_loop_accept:
  assumes "race_round g P values gaze boundary k = Inr (c, rt, k')" "\<not> isnan rt"
  shows "race_loop g P values gaze boundary k = Some (Inr ((c, rt), k'))"
  using assms by (subst race_loop.simps) simp

lemma race_loop_retry:
  assumes "race_round g P values gaze boundary k = Inr (c, rt, k')" "isnan rt"
  shows "race_loop g P values gaze boundary k = race_loop g P values gaze boundary k'"
  using assms by (subst race_loop.simps) simp

lemma race_loop_raise:
  assumes "race_round g P values gaze boundary k = Inl e"
  shows "race_loop g P values gaze boundary k = Some (Inl e)"
  using assms by (subst race_loop.simps) simp

lemma race_loop_induct:
  assumes ret: "race_loop g P values gaze boundary k = Some y"
    and step: "\<And>f g P values gaze boundary k y.
      (\<And>g P values gaze boundary k y.
          f g P values gaze boundary k = Some y \<Longrightarrow> Q g P values gaze boundary k y) \<Longrightarrow>
      (case race_round g P values gaze boundary k of
         Inl e \<Rightarrow> Some (Inl e)
       | Inr (c, rt, k') \<Rightarrow>
           if isnan rt then f g P values gaze boundary k'
           else Some (Inr ((c, rt), k'))) = Some y \<Longrightarrow>
      Q g P values gaze boundary k y"
  shows "Q g P values gaze boundary k y"
proof -
  let ?Pa = "\<lambda>x y. Q (fst (fst (fst (fst (fst x))))) (snd (fst (fst (fst (fst x)))))
                     (snd (fst (fst (fst x)))) (snd (fst (fst x))) (snd (fst x)) (snd x) y"
  have "?Pa (((((g, P), values), gaze), boundary), k) y"
  proof (rule race_loop.raw_induct[where Pa = ?Pa, OF _ ret])
    fix f g P "values" gaze boundary k y
    assume IH: "\<And>g P values gaze boundary k y. f g P values gaze boundary k = Some y \<Longrightarrow>
             ?Pa (((((g, P), values), gaze), boundary), k) y"
      and st: "(case race_round g P values gaze boundary k of
                   Inl e \<Rightarrow> Some (Inl e)
                 | Inr (c, rt, k') \<Rightarrow>
                     if isnan rt then f g P values gaze boundary k'
                     else Some (Inr ((c, rt), k'))) = Some y"
    have inner: "\<And>g P values gaze boundary k y.
        f g P values gaze boundary k = Some y \<Longrightarrow> Q g P values gaze boundary k y"
    proof -
      fix g P "values" gaze boundary k y
      assume "f g P values gaze boundary k = Some y"
      from IH[OF this] show "Q g P values gaze boundary k y" by simp
    qed
    have "Q g P values gaze boundary k y"
      using step[of f g P "values" gaze boundary k y] inner st by blast
    then show "?Pa (((((g, P), values), gaze), boundary), k) y" by simp
  qed
  then show ?thesis by simp
qed

lemma race_loop_returns:
  assumes ret: "race_loop g P values gaze boundary k = Some (Inr ((c, rt), k'))"
  shows "\<exists>k0. race_round g P values gaze boundary k0 = Inr (c, rt, k') \<and> \<not> isnan rt"
proof -
  define Q where "Q = (\<lambda>(g::rng) (P::parameters) (values::npfloat list) (gaze::npfloat list)
       (boundary::npfloat) (k::nat) (y::error + ((choice \<times> npfloat) \<times> nat)).
     \<forall>c rt k'. y = Inr ((c, rt), k') \<longrightarrow>
        (\<exists>k0. race_round g P values gaze boundary k0 = Inr (c, rt, k') \<and> \<not> isnan rt))"
  have "Q g P values gaze boundary k (Inr ((c, rt), k'))"
  proof (rule race_loop_induct[of g P "values" gaze boundary k "Inr ((c, rt), k')" Q, OF ret])
    fix f g P "values" gaze boundary k y
    assume IH: "\<And>g P values gaze boundary k y. f g P values gaze boundary k = Some y \<Longrightarrow>
             Q g P values gaze boundary k y"
      and st: "(case race_round g P values gaze boundary k of
                   Inl e \<Rightarrow> Some (Inl e)
                 | Inr (c, rt, k') \<Rightarrow>
                     if isnan rt then f g P values gaze boundary k'
                     else Some (Inr ((c, rt), k'))) = Some y"
    show "Q g P values gaze boundary k y"
    proof (cases "race_round g P values gaze boundary k")
      case (Inl e)
      with st show ?thesis by (auto simp: Q_def)
    next
      case (Inr t)
      obtain c0 rt0 k0 where t: "t = (c0, rt0, k0)" by (cases t) auto
      show ?thesis
      proof (cases "isnan rt0")
        case True
        with st Inr t have "f g P values gaze boundary k0 = Some y" by simp
        from IH[OF this] show ?thesis by (simp add: Q_def)
      next
        case False
        with st Inr t have "y = Inr ((c0, rt0), k0)" by simp
        with Inr t False show ?thesis by (auto simp: Q_def)
      qed
    qed
  qed
  then show ?thesis by (simp add: Q_def)
qed

lemma race_loop_never_returns:
  assumes all: "\<And>k. \<exists>c rt k'. race_round g P values gaze boundary k = Inr (c, rt, k') \<and> isnan rt"
  shows "race_loop g P values gaze boundary k = None"
proof (cases "race_loop g P values gaze boundary k")
  case None
  then show ?thesis .
next
  case (Some y)
  define Q where "Q = (\<lambda>(g'::rng) (P'::parameters) (values'::npfloat list) (gaze'::npfloat list)
       (boundary'::npfloat) (k::nat) (y::error + ((choice \<times> npfloat) \<times> nat)).
     \<not> (g' = g \<and> P' = P \<and> values' = values \<and> gaze' = gaze \<and> boundary' = boundary))"
  have "Q g P values gaze boundary k y"
  proof (rule race_loop_induct[of g P "values" gaze boundary k y Q, OF Some])
    fix f g' P' values' gaze' boundary' k y
    assume IH: "\<And>g P values gaze boundary k y. f g P values gaze boundary k = Some y \<Longrightarrow>
             Q g P values gaze boundary k y"
      and st: "(case race_round g' P' values' gaze' boundary' k of
                   Inl e \<Rightarrow> Some (Inl e)
                 | Inr (c, rt, k') \<Rightarrow>
                     if isnan rt then f g' P' values' gaze' boundary' k'
                     else Some (Inr ((c, rt), k'))) = Some y"
    show "Q g' P' values' gaze' boundary' k y"
    proof (cases "g' = g \<and> P' = P \<and> values' = values \<and> gaze' = gaze \<and> boundary' = boundary")
      case False
      then show ?thesis by (simp add: Q_def)
    next
      case True
      from all[of k] obtain c rt k' where
        r: "race_round g P values gaze boundary k = Inr (c, rt, k')" "isnan rt" by blast
      with st True have "f g P values gaze boundary k' = Some y" by simp
      from IH[OF this] show ?thesis using True by (simp add: Q_def)
    qed
  qed
  then show ?thesis by (simp add: Q_def)
qed

lemma make_R_example:
  "\<exists>R. make_R (Fin v) (Fin tau) (Fin gamma) [Fin 5, Fin 3] [Fin (4/5), Fin (1/5)] = Inr R \<and> length R = 2"
  by (simp add: make_R_def make_A_def np_binop_def others_def upt_rec fsub_def logistic_def)

lemma race_round_example:
  "race_round draws_3_2 example_parameters [Fin 5, Fin 3] [Fin (4/5), Fin (1/5)] (Fin 1) 1
     = Inr (Item 1, Fin 302, 3)"
proof -
  obtain R where R: "make_R (Fin 1) (Fin (1/2)) (Fin (1/5)) [Fin 5, Fin 3] [Fin (4/5), Fin (1/5)] = Inr R"
    "length R = 2"
    using make_R_example by blast
  have up: "[0..<2] = [0, Suc 0]" by (simp add: upt_rec)
  have F: "sample_FPTs draws_3_2 (Fin 1) (Fin (1/5)) R [0, Suc 0] 1 = Inr ([Fin 3, Fin 2], 3)"
    using R(2) by (simp add: draws_3_2_def Let_def)
  show ?thesis
    using R(1) F by (simp add: race_round_def example_parameters_def up fmin_def)
qed

text \<open>
  Claim C3.  With \<open>error_weight = 0\<close> (and a uniform draw that is not negative) a trial
  that returns took the race branch: some round of the loop produced first-passage times
  whose minimum \<open>m\<close> is finite and not negative, the choice is the first index of that
  minimum, and the response time is \<open>m + t0\<close>, finite and at least \<open>t0\<close>, for a finite
  non-decision time \<open>t0\<close>.
\<close>

theorem simulate_trial_race_rt:
  assumes u: "random_uniform g k (Fin 0) (Fin 1) = Fin u" "0 \<le> u"
    and t0: "param_t0 P = Fin t"
    and ret: "simulate_trial g P values gaze boundary (Fin 0) error_range k = Some (Inr ((c, rt), k'))"
  shows "race_loop g P values gaze boundary (k + 1) = Some (Inr ((c, rt), k')) \<and>
     (\<exists>k0 R FPTs m i.
        make_R (param_v P) (param_tau P) (param_gamma P) values gaze = Inr R \<and>
        sample_FPTs g boundary (param_s P) R [0..<length values] k0 = Inr (FPTs, k') \<and>
        np_min FPTs = Inr (Fin m) \<and> 0 \<le> m \<and> (\<forall>x\<in>set FPTs. \<not> flt x (Fin m)) \<and>
        i < length FPTs \<and> FPTs ! i = Fin m \<and> (\<forall>j<i. FPTs ! j \<noteq> Fin m) \<and>
        c = Item i \<and> rt = Fin (m + t) \<and> t \<le> m + t)"
proof -
  have loop: "race_loop g P values gaze boundary (k + 1) = Some (Inr ((c, rt), k'))"
    using ret u by (simp add: simulate_trial_def)
  from race_loop_returns[OF loop] obtain k0 where
    round: "race_round g P values gaze boundary k0 = Inr (c, rt, k')" "\<not> isnan rt"
    by blast
  from race_round_accepted[OF round] obtain R FPTs m i where
    acc: "make_R (param_v P) (param_tau P) (param_gamma P) values gaze = Inr R"
      "sample_FPTs g boundary (param_s P) R [0..<length values] k0 = Inr (FPTs, k')"
      "np_min FPTs = Inr (Fin m)" "0 \<le> m" "np_argmin FPTs = Inr i" "c = Item i"
      "rt = fadd (Fin m) (param_t0 P)"
    by blast
  have first: "i < length FPTs \<and> FPTs ! i = Fin m \<and> (\<forall>j<i. FPTs ! j \<noteq> Fin m)"
    using np_argmin_first_min[OF acc(3) _ acc(5)] by simp
  have least: "\<forall>x\<in>set FPTs. \<not> flt x (Fin m)"
  proof (cases FPTs)
    case Nil
    then show ?thesis by simp
  next
    case (Cons x xs)
    with acc(3) have "foldl fmin x xs = Fin m" by simp
    with foldl_fmin_min[of x xs] Cons show ?thesis by simp
  qed
  have rt: "rt = Fin (m + t)" using acc(7) t0 by simp
  have "make_R (param_v P) (param_tau P) (param_gamma P) values gaze = Inr R \<and>
        sample_FPTs g boundary (param_s P) R [0..<length values] k0 = Inr (FPTs, k') \<and>
        np_min FPTs = Inr (Fin m) \<and> 0 \<le> m \<and> (\<forall>x\<in>set FPTs. \<not> flt x (Fin m)) \<and>
        i < length FPTs \<and> FPTs ! i = Fin m \<and> (\<forall>j<i. FPTs ! j \<noteq> Fin m) \<and>
        c = Item i \<and> rt = Fin (m + t) \<and> t \<le> m + t"
    using acc(1,2,3,4,6) first least rt by simp
  then show ?thesis using loop by blast
qed

theorem simulate_trial_race_rt_witness:
  "random_uniform draws_3_2 0 (Fin 0) (Fin 1) = Fin (1/2) \<and> (0::real) \<le> 1/2 \<and>
   param_t0 example_parameters = Fin 300 \<and>
   simulate_trial draws_3_2 example_parameters [Fin 5, Fin 3] [Fin (4/5), Fin (1/5)] (Fin 1)
     (Fin 0) (Fin 0, Fin 5) 0 = Some (Inr ((Item 1, Fin 302), 3)) \<and>
   race_loop draws_3_2 example_parameters [Fin 5, Fin 3] [Fin (4/5), Fin (1/5)] (Fin 1) (0 + 1)
     = Some (Inr ((Item 1, Fin 302), 3))"
proof -
  have h1: "random_uniform draws_3_2 0 (Fin 0) (Fin 1) = Fin (1/2)"
    by (simp add: draws_3_2_def)
  have h2: "(0::real) \<le> 1/2" by simp
  have h3: "param_t0 example_parameters = Fin 300"
    by (simp add: example_parameters_def)
  have h4: "simulate_trial draws_3_2 example_parameters [Fin 5, Fin 3] [Fin (4/5), Fin (1/5)]
      (Fin 1) (Fin 0) (Fin 0, Fin 5) 0 = Some (Inr ((Item 1, Fin 302), 3))"
    using race_loop_accept[OF race_round_example] h1 by (simp add: simulate_trial_def)
  from simulate_trial_race_rt[OF h1 h2 h3 h4] h1 h2 h3 h4 show ?thesis by blast
qed

lemma R_star_loop_length: "R_star_loop A n is = Inr rs \<Longrightarrow> length rs = length is"
  by (induction "is" arbitrary: rs) (auto split: sum.splits)

lemma make_R_length:
  assumes "make_R v tau gamma values gaze = Inr R"
  shows "length R = length values"
  using assms R_star_loop_length
  by (fastforce simp: make_R_def Let_def split: sum.splits)

lemma fmin_rejected:
  assumes "flt a (Fin 0) \<or> \<not> isfinite a" "flt b (Fin 0) \<or> \<not> isfinite b"
  shows "flt (fmin a b) (Fin 0) \<or> \<not> isfinite (fmin a b)"
  using assms by (auto simp: fmin_def)

lemma foldl_fmin_rejected:
  assumes "flt b (Fin 0) \<or> \<not> isfinite b" "\<forall>x\<in>set xs. flt x (Fin 0) \<or> \<not> isfinite x"
  shows "flt (foldl fmin b xs) (Fin 0) \<or> \<not> isfinite (foldl fmin b xs)"
  using assms
proof (induction xs arbitrary: b)
  case Nil
  then show ?case by simp
next
  case (Cons y ys)
  have "flt (fmin b y) (Fin 0) \<or> \<not> isfinite (fmin b y)"
    using fmin_rejected[of b y] Cons.prems by simp
  then show ?case using Cons.IH[of "fmin b y"] Cons.prems by simp
qed

lemma sample_FPTs_rejected:
  assumes bad: "\<And>j mu sc. \<exists>x. invgauss_rvs g j mu sc = Inr x \<and> (flt x (Fin 0) \<or> \<not> isfinite x)"
    and "\<forall>i\<in>set is. i < length R"
  shows "\<exists>xs. sample_FPTs g b s R is k = Inr (xs, k + length is) \<and> length xs = length is \<and>
              (\<forall>x\<in>set xs. flt x (Fin 0) \<or> \<not> isfinite x)"
  using assms(2)
proof (induction "is" arbitrary: k)
  case Nil
  then show ?case by simp
next
  case (Cons i "is")
  from bad[of k "fdiv (fdiv b (R ! i)) (fmul (fdiv b s) (fdiv b s))" "fmul (fdiv b s) (fdiv b s)"]
  obtain x where x: "invgauss_rvs g k (fdiv (fdiv b (R ! i)) (fmul (fdiv b s) (fdiv b s)))
        (fmul (fdiv b s) (fdiv b s)) = Inr x" "flt x (Fin 0) \<or> \<not> isfinite x"
    by blast
  from Cons.IH[of "Suc k"] Cons.prems obtain xs where
    xs: "sample_FPTs g b s R is (Suc k) = Inr (xs, Suc k + length is)" "length xs = length is"
      "\<forall>x\<in>set xs. flt x (Fin 0) \<or> \<not> isfinite x"
    by auto
  have "i < length R" using Cons.prems by simp
  then have "sample_FPTs g b s R (i # is) k = Inr (x # xs, k + length (i # is))"
    using x(1) xs(1) by (simp add: Let_def)
  then show ?case using x(2) xs(2,3) by auto
qed

lemma race_round_rejected:
  assumes R: "make_R (param_v P) (param_tau P) (param_gamma P) values gaze = Inr R"
    and ne: "values \<noteq> []"
    and bad: "\<And>j mu sc. \<exists>x. invgauss_rvs g j mu sc = Inr x \<and> (flt x (Fin 0) \<or> \<not> isfinite x)"
  shows "race_round g P values gaze boundary k = Inr (NoChoice, NaN, k + length values)"
proof -
  have len: "length R = length values" by (rule make_R_length[OF R])
  then have "\<forall>i\<in>set [0..<length values]. i < length R" by simp
  from sample_FPTs_rejected[OF bad this, of boundary "param_s P" k] obtain xs where
    xs: "sample_FPTs g boundary (param_s P) R [0..<length values] k = Inr (xs, k + length values)"
      "length xs = length values" "\<forall>x\<in>set xs. flt x (Fin 0) \<or> \<not> isfinite x"
    by auto
  from xs(2) ne obtain y ys where yys: "xs = y # ys" by (cases xs) auto
  have "flt (foldl fmin y ys) (Fin 0) \<or> \<not> isfinite (foldl fmin y ys)"
    using foldl_fmin_rejected[of y ys] xs(3) yys by simp
  then show ?thesis
    using R xs(1) yys by (auto simp: race_round_def Let_def)
qed

text \<open>
  Claim C2 (as amended).  The loop of the race branch has no bound on the number of rounds
  and no stall condition: when the race branch is taken, the rates are computed and every
  first-passage draw is negative or not finite, \<open>simulate_trial\<close> does not return.
\<close>

theorem simulate_trial_stalls:
  assumes R: "make_R (param_v P) (param_tau P) (param_gamma P) values gaze = Inr R"
    and ne: "values \<noteq> []"
    and bad: "\<And>j mu sc. \<exists>x. invgauss_rvs g j mu sc = Inr x \<and> (flt x (Fin 0) \<or> \<not> isfinite x)"
    and race: "\<not> flt (random_uniform g k (Fin 0) (Fin 1)) error_weight"
  shows "simulate_trial g P values gaze boundary error_weight error_range k = None"
proof -
  have "\<And>k. \<exists>c rt k'. race_round g P values gaze boundary k = Inr (c, rt, k') \<and> isnan rt"
    using race_round_rejected[OF R ne bad] by simp
  then have "race_loop g P values gaze boundary (k + 1) = None"
    by (rule race_loop_never_returns)
  then show ?thesis using race by (simp add: simulate_trial_def)
qed

theorem simulate_trial_stalls_witness:
  "[Fin 5, Fin 3] \<noteq> [] \<and>
   simulate_trial draws_negative example_parameters [Fin 5, Fin 3] [Fin (4/5), Fin (1/5)] (Fin 1)
     (Fin (1/20)) (Fin 0, Fin 5) 0 = None"
proof -
  obtain R where R: "make_R (param_v example_parameters) (param_tau example_parameters)
      (param_gamma example_parameters) [Fin 5, Fin 3] [Fin (4/5), Fin (1/5)] = Inr R"
    using make_R_example[of 1 "1/2" "1/5"] by (auto simp: example_parameters_def)
  have ne: "[Fin 5, Fin 3] \<noteq> []" by simp
  have bad: "\<And>j mu sc. \<exists>x. invgauss_rvs draws_negative j mu sc = Inr x \<and>
      (flt x (Fin 0) \<or> \<not> isfinite x)"
    by (simp add: draws_negative_def)
  have race: "\<not> flt (random_uniform draws_negative 0 (Fin 0) (Fin 1)) (Fin (1/20))"
    by (simp add: draws_negative_def)
  from simulate_trial_stalls[OF R ne bad race] ne show ?thesis by simp
qed

text \<open>
  Claim C2 as stated fails: with a sampler whose every draw is NaN the trial of the
  specification's scenario never returns, and nothing is raised.
\<close>

theorem simulate_trial_unbounded_counterexample:
  "simulate_trial draws_stalled example_parameters [Fin 5, Fin 3] [Fin (4/5), Fin (1/5)] (Fin 1)
     (Fin 0) (Fin 0, Fin 5) 0 = None"
proof -
  obtain R where R: "make_R (param_v example_parameters) (param_tau example_parameters)
      (param_gamma example_parameters) [Fin 5, Fin 3] [Fin (4/5), Fin (1/5)] = Inr R"
    using make_R_example[of 1 "1/2" "1/5"] by (auto simp: example_parameters_def)
  have bad: "\<And>j mu sc. \<exists>x. invgauss_rvs draws_stalled j mu sc = Inr x \<and>
      (flt x (Fin 0) \<or> \<not> isfinite x)"
    by (simp add: draws_stalled_def)
  have "\<And>k. \<exists>c rt k'. race_round draws_stalled example_parameters [Fin 5, Fin 3]
      [Fin (4/5), Fin (1/5)] (Fin 1) k = Inr (c, rt, k') \<and> isnan rt"
    using race_round_rejected[OF R _ bad] by simp
  then have "race_loop draws_stalled example_parameters [Fin 5, Fin 3] [Fin (4/5), Fin (1/5)]
      (Fin 1) (0 + 1) = None"
    by (rule race_loop_never_returns)
  then show ?thesis by (simp add: simulate_trial_def draws_stalled_def)
qed

lemma race_round_example_t0:
  "race_round draws_3_2 (example_parameters\<lparr>param_t0 := Fin t\<rparr>) [Fin 5, Fin 3]
     [Fin (4/5), Fin (1/5)] (Fin 1) 1 = Inr (Item 1, Fin (2 + t), 3)"
proof -
  obtain R where R: "make_R (Fin 1) (Fin (1/2)) (Fin (1/5)) [Fin 5, Fin 3] [Fin (4/5), Fin (1/5)] = Inr R"
    "length R = 2"
    using make_R_example by blast
  have up: "[0..<2] = [0, Suc 0]" by (simp add: upt_rec)
  have F: "sample_FPTs draws_3_2 (Fin 1) (Fin (1/5)) R [0, Suc 0] 1 = Inr ([Fin 3, Fin 2], 3)"
    using R(2) by (simp add: draws_3_2_def Let_def)
  show ?thesis
    using R(1) F by (simp add: race_round_def example_parameters_def up fmin_def)
qed

text \<open>
  Claim C4.  In a round of the race that starts after \<open>k\<close> draws, the first-passage time
  of item \<open>i\<close> is the answer of the inverse-Gaussian sampler, at draw \<open>k + i\<close>, to the mean
  \<open>mu / lambda\<close> and the scale \<open>lambda\<close>, with \<open>mu = boundary / R_i\<close> and
  \<open>lambda = (boundary / s)\<^sup>2\<close>; for finite non-zero \<open>boundary\<close>, \<open>s\<close> and \<open>R_i\<close> these are
  the real numbers \<open>(b / r) / (b / s)\<^sup>2\<close> and \<open>(b / s)\<^sup>2\<close>.
\<close>

theorem race_round_sampler_arguments:
  assumes "race_round g P values gaze boundary k = Inr (c, rt, k')"
  shows "\<exists>R FPTs.
     make_R (param_v P) (param_tau P) (param_gamma P) values gaze = Inr R \<and>
     length R = length values \<and> length FPTs = length values \<and> k' = k + length values \<and>
     (\<forall>i<length values.
        invgauss_rvs g (k + i)
          (fdiv (fdiv boundary (R ! i))
                (fmul (fdiv boundary (param_s P)) (fdiv boundary (param_s P))))
          (fmul (fdiv boundary (param_s P)) (fdiv boundary (param_s P))) = Inr (FPTs ! i)) \<and>
     (\<forall>i<length values. \<forall>b sd r.
        boundary = Fin b \<and> param_s P = Fin sd \<and> R ! i = Fin r \<and> b \<noteq> 0 \<and> sd \<noteq> 0 \<and> r \<noteq> 0 \<longrightarrow>
        invgauss_rvs g (k + i) (Fin ((b / r) / (b / sd) ^ 2)) (Fin ((b / sd) ^ 2))
          = Inr (FPTs ! i))"
proof -
  from assms obtain R FPTs where
    R: "make_R (param_v P) (param_tau P) (param_gamma P) values gaze = Inr R"
    and F: "sample_FPTs g boundary (param_s P) R [0..<length values] k = Inr (FPTs, k')"
    by (auto simp: race_round_def Let_def split: sum.splits prod.splits if_splits)
  have len: "length R = length values" by (rule make_R_length[OF R])
  from sample_FPTs_draws[OF F]
  have k': "k' = k + length values" and lF: "length FPTs = length values"
    and draws: "\<forall>i<length values.
        invgauss_rvs g (k + i)
          (fdiv (fdiv boundary (R ! i))
                (fmul (fdiv boundary (param_s P)) (fdiv boundary (param_s P))))
          (fmul (fdiv boundary (param_s P)) (fdiv boundary (param_s P))) = Inr (FPTs ! i)"
    by simp_all
  have fin: "\<forall>i<length values. \<forall>b sd r.
        boundary = Fin b \<and> param_s P = Fin sd \<and> R ! i = Fin r \<and> b \<noteq> 0 \<and> sd \<noteq> 0 \<and> r \<noteq> 0 \<longrightarrow>
        invgauss_rvs g (k + i) (Fin ((b / r) / (b / sd) ^ 2)) (Fin ((b / sd) ^ 2))
          = Inr (FPTs ! i)"
  proof (intro allI impI)
    fix i b sd r
    assume i: "i < length values"
      and h: "boundary = Fin b \<and> param_s P = Fin sd \<and> R ! i = Fin r \<and> b \<noteq> 0 \<and> sd \<noteq> 0 \<and> r \<noteq> 0"
    have lam: "fmul (fdiv boundary (param_s P)) (fdiv boundary (param_s P)) = Fin ((b / sd) ^ 2)"
      using h by (simp add: power2_eq_square)
    have "(b / sd) ^ 2 \<noteq> 0" using h by simp
    then have mu: "fdiv (fdiv boundary (R ! i)) (Fin ((b / sd) ^ 2)) = Fin ((b / r) / (b / sd) ^ 2)"
      using h by simp
    from draws i have d: "invgauss_rvs g (k + i)
          (fdiv (fdiv boundary (R ! i))
                (fmul (fdiv boundary (param_s P)) (fdiv boundary (param_s P))))
          (fmul (fdiv boundary (param_s P)) (fdiv boundary (param_s P))) = Inr (FPTs ! i)"
      by blast
    from d[unfolded lam mu]
    show "invgauss_rvs g (k + i) (Fin ((b / r) / (b / sd) ^ 2)) (Fin ((b / sd) ^ 2))
          = Inr (FPTs ! i)" .
  qed
  from R len lF k' draws fin show ?thesis by blast
qed


theorem race_round_sampler_arguments_witness:
  "race_round draws_3_2 example_parameters [Fin 5, Fin 3] [Fin (4/5), Fin (1/5)] (Fin 1) 1
     = Inr (Item 1, Fin 302, 3) \<and>
   (\<exists>R FPTs.
      make_R (Fin 1) (Fin (1/2)) (Fin (1/5)) [Fin 5, Fin 3] [Fin (4/5), Fin (1/5)] = Inr R \<and>
      length FPTs = 2 \<and>
      invgauss_rvs draws_3_2 (1 + 1) (fdiv (fdiv (Fin 1) (R ! 1)) (Fin 25)) (Fin 25)
        = Inr (FPTs ! 1))"
proof -
  have h: "race_round draws_3_2 example_parameters [Fin 5, Fin 3] [Fin (4/5), Fin (1/5)] (Fin 1) 1
     = Inr (Item 1, Fin 302, 3)"
    by (rule race_round_example)
  from race_round_sampler_arguments[OF h] obtain R FPTs where
    r: "make_R (param_v example_parameters) (param_tau example_parameters)
          (param_gamma example_parameters) [Fin 5, Fin 3] [Fin (4/5), Fin (1/5)] = Inr R"
      "length FPTs = length [Fin 5, Fin 3 :: npfloat]"
      "\<forall>i<length [Fin 5, Fin 3 :: npfloat].
        invgauss_rvs draws_3_2 (1 + i)
          (fdiv (fdiv (Fin 1) (R ! i))
                (fmul (fdiv (Fin 1) (param_s example_parameters))
                      (fdiv (Fin 1) (param_s example_parameters))))
          (fmul (fdiv (Fin 1) (param_s example_parameters))
                (fdiv (Fin 1) (param_s example_parameters))) = Inr (FPTs ! i)"
    by blast
  have "invgauss_rvs draws_3_2 (1 + 1) (fdiv (fdiv (Fin 1) (R ! 1)) (Fin 25)) (Fin 25)
        = Inr (FPTs ! 1)"
    using r(3) by (simp add: example_parameters_def)
  moreover have "make_R (Fin 1) (Fin (1/2)) (Fin (1/5)) [Fin 5, Fin 3] [Fin (4/5), Fin (1/5)] = Inr R"
    using r(1) by (simp add: example_parameters_def)
  moreover have "length FPTs = 2" using r(2) by simp
  ultimately show ?thesis using h by blast
qed

text \<open>
  Claim C8 (as amended).  For every error weight: when \<open>t0\<close> is finite and not negative,
  the error range is finite with \<open>0 \<le> min_rt \<le> max_rt\<close> and the uniform sampler stays
  within its bounds, every pair that \<open>simulate_trial\<close> returns has a finite response time
  that is not negative, and an item index as its choice.
\<close>

theorem simulate_trial_rt_nonnegative:
  assumes t0: "param_t0 P = Fin t" "0 \<le> t"
    and er: "error_range = (Fin lo, Fin hi)" "0 \<le> lo" "lo \<le> hi"
    and unif: "\<And>j a b. a \<le> b \<Longrightarrow> \<exists>r. random_uniform g j (Fin a) (Fin b) = Fin r \<and> a \<le> r \<and> r \<le> b"
    and ret: "simulate_trial g P values gaze boundary error_weight error_range k
                = Some (Inr ((c, rt), k'))"
  shows "\<exists>x i. rt = Fin x \<and> 0 \<le> x \<and> c = Item i"
proof (cases "flt (random_uniform g k (Fin 0) (Fin 1)) error_weight")
  case True
  from unif[OF er(3), of "k + 1"] obtain r where
    r: "random_uniform g (k + 1) (Fin lo) (Fin hi) = Fin r" "lo \<le> r"
    by blast
  from ret True er(1) r(1) obtain i where "c = Item i" "rt = Fin r"
    by (auto simp: simulate_trial_def Let_def split: sum.splits)
  moreover have "0 \<le> r" using r(2) er(2) by simp
  ultimately show ?thesis by blast
next
  case False
  with ret have loop: "race_loop g P values gaze boundary (k + 1) = Some (Inr ((c, rt), k'))"
    by (simp add: simulate_trial_def)
  from race_loop_returns[OF loop] obtain k0 where
    round: "race_round g P values gaze boundary k0 = Inr (c, rt, k')" "\<not> isnan rt"
    by blast
  from race_round_accepted[OF round] obtain m i where
    "0 \<le> m" "c = Item i" "rt = fadd (Fin m) (param_t0 P)"
    by blast
  then have "rt = Fin (m + t)" "0 \<le> m + t" "c = Item i"
    using t0 by simp_all
  then show ?thesis by blast
qed

theorem simulate_trial_rt_nonnegative_witness:
  "param_t0 example_parameters = Fin 300 \<and> (0::real) \<le> 300 \<and> (0::real) \<le> 1 \<and> (1::real) \<le> 5 \<and>
   simulate_trial draws_low example_parameters [Fin 5, Fin 3] [Fin (4/5), Fin (1/5)] (Fin 1)
     (Fin (1/2)) (Fin 1, Fin 5) 0 = Some (Inr ((Item 0, Fin 1), 3)) \<and>
   (\<exists>x i. Fin 1 = Fin x \<and> 0 \<le> x \<and> Item 0 = Item i)"
proof -
  have h1: "param_t0 example_parameters = Fin 300" by (simp add: example_parameters_def)
  have h2: "(0::real) \<le> 300" by simp
  have h3: "(Fin 1, Fin 5) = (Fin 1, Fin 5)" by simp
  have h4: "(0::real) \<le> 1" by simp
  have h5: "(1::real) \<le> 5" by simp
  have h6: "\<And>j a b. a \<le> b \<Longrightarrow>
      \<exists>r. random_uniform draws_low j (Fin a) (Fin b) = Fin r \<and> a \<le> r \<and> r \<le> b"
    by (simp add: draws_low_def)
  have h7: "simulate_trial draws_low example_parameters [Fin 5, Fin 3] [Fin (4/5), Fin (1/5)]
      (Fin 1) (Fin (1/2)) (Fin 1, Fin 5) 0 = Some (Inr ((Item 0, Fin 1), 3))"
    by (simp add: simulate_trial_def draws_low_def np_random_choice_def)
  from simulate_trial_rt_nonnegative[OF h1 h2 h3 h4 h5 h6 h7] h1 h7 show ?thesis by simp
qed

text \<open>
  Claim C8 as stated fails: nothing keeps \<open>t0\<close> from being negative, and with \<open>t0 = -3\<close>
  and first-passage times 3 and 2 the trial returns the response time \<open>-1\<close>.
\<close>

theorem simulate_trial_negative_rt_counterexample:
  "simulate_trial draws_3_2 (example_parameters\<lparr>param_t0 := Fin (- 3)\<rparr>) [Fin 5, Fin 3]
     [Fin (4/5), Fin (1/5)] (Fin 1) (Fin 0) (Fin 0, Fin 5) 0
     = Some (Inr ((Item 1, Fin (- 1)), 3))"
proof -
  have "race_round draws_3_2 (example_parameters\<lparr>param_t0 := Fin (- 3)\<rparr>) [Fin 5, Fin 3]
     [Fin (4/5), Fin (1/5)] (Fin 1) 1 = Inr (Item 1, Fin (- 1), 3)"
    using race_round_example_t0[of "- 3"] by simp
  from race_loop_accept[OF this]
  show ?thesis by (simp add: simulate_trial_def draws_3_2_def)
qed

lemma np_binop_error: "np_binop f xs ys = Inl e \<Longrightarrow> e = ValueError"
  by (simp add: np_binop_def split: if_splits)

lemma make_A_error: "make_A gamma values gaze = Inl e \<Longrightarrow> e = ValueError"
  by (auto simp: make_A_def split: sum.splits dest: np_binop_error)

lemma make_R_single_item:
  assumes "length values = 1"
  shows "make_R v tau gamma values gaze = Inl ValueError"
proof (cases "make_A gamma values gaze")
  case (Inl e)
  then show ?thesis using make_A_error[OF Inl] by (simp add: make_R_def)
next
  case (Inr A)
  have "R_star_loop A 1 [0..<1] = Inl ValueError"
    by (simp add: others_def)
  then show ?thesis using Inr assms by (simp add: make_R_def)
qed

text \<open>
  Claim C10.  For a single item the set of other items is empty and \<open>np.max\<close> raises
  ValueError: \<open>make_R\<close> returns no rates and the race branch of \<open>simulate_trial\<close> raises,
  while the error branch returns the choice 0 and the uniform response time.
\<close>

theorem single_item_trial:
  assumes "length values = 1"
  shows "make_R v tau gamma values gaze = Inl ValueError \<and>
    (\<not> flt (random_uniform g k (Fin 0) (Fin 1)) error_weight \<longrightarrow>
       simulate_trial g P values gaze boundary error_weight error_range k = Some (Inl ValueError)) \<and>
    (flt (random_uniform g k (Fin 0) (Fin 1)) error_weight \<longrightarrow>
       simulate_trial g P values gaze boundary error_weight error_range k
         = Some (Inr ((Item 0, random_uniform g (k + 1) (fst error_range) (snd error_range)),
                      k + 3)))"
proof -
  have R: "\<And>v tau gamma. make_R v tau gamma values gaze = Inl ValueError"
    by (rule make_R_single_item[OF assms])
  have "race_round g P values gaze boundary (k + 1) = Inl ValueError"
    using R by (simp add: race_round_def)
  then have "race_loop g P values gaze boundary (k + 1) = Some (Inl ValueError)"
    by (rule race_loop_raise)
  then have race: "\<not> flt (random_uniform g k (Fin 0) (Fin 1)) error_weight \<longrightarrow>
       simulate_trial g P values gaze boundary error_weight error_range k = Some (Inl ValueError)"
    by (simp add: simulate_trial_def)
  have err: "flt (random_uniform g k (Fin 0) (Fin 1)) error_weight \<longrightarrow>
       simulate_trial g P values gaze boundary error_weight error_range k
         = Some (Inr ((Item 0, random_uniform g (k + 1) (fst error_range) (snd error_range)),
                      k + 3))"
    using assms by (simp add: simulate_trial_def np_random_choice_def)
  from R race err show ?thesis by blast
qed

theorem single_item_trial_witness:
  "length [Fin 5] = 1 \<and>
   make_R (Fin 1) (Fin 1) (Fin 1) [Fin 5] [Fin 1] = Inl ValueError \<and>
   simulate_trial draws_3_2 example_parameters [Fin 5] [Fin 1] (Fin 1) (Fin 0) (Fin 0, Fin 5) 0
     = Some (Inl ValueError) \<and>
   simulate_trial draws_3_2 example_parameters [Fin 5] [Fin 1] (Fin 1) (Fin 1) (Fin 0, Fin 5) 0
     = Some (Inr ((Item 0, Fin (1/2)), 3))"
proof -
  have h: "length [Fin 5] = 1" by simp
  from single_item_trial[OF h, of "Fin 1" "Fin 1" "Fin 1" "[Fin 1]" draws_3_2 0 "Fin 0"
      example_parameters "Fin 1" "(Fin 0, Fin 5)"]
    single_item_trial[OF h, of "Fin 1" "Fin 1" "Fin 1" "[Fin 1]" draws_3_2 0 "Fin 1"
      example_parameters "Fin 1" "(Fin 0, Fin 5)"]
  show ?thesis by (simp add: draws_3_2_def)
qed

end
